theory Spec2Isabelle
  imports Complex_Main "HOL-Library.Sublist"
begin

section \<open>Field generators: the expression nodes of fieldgenerators.hxx\<close>

text \<open>
  The header defines the concrete \<open>FieldGenerator\<close> classes that the field factory
  clones into expression trees. Each class has up to three virtual methods:
  \<open>clone\<close> (build a node of the same class from a list of children), \<open>generate\<close>
  (the value at a position) and \<open>str\<close> (a textual form).

  Conventions of the embedding:
  \<^item> \<open>BoutReal\<close> (a C++ \<open>double\<close>) is a mathematical real; NaN, infinities and
    signed zeros are outside the model. The header does arithmetic of its own on
    \<open>BoutReal\<close> values in one place, the addition and subtraction of 0.5 in
    \<open>FieldRound::generate\<close>: these round to the nearest double, as the machine's do.
  \<^item> A \<open>BoutReal*\<close> is an address into an explicit store; an address the store does
    not map is a null or dangling pointer.
  \<^item> A thrown \<open>ParseException\<close> and every undefined behaviour of the C++ (reading
    through an invalid pointer, dereferencing the end iterator, a float-to-int
    conversion out of range) is a value \<open>Inl e\<close> of the result type.
  \<^item> An argument list of \<open>clone\<close> holds already constructed nodes, so its elements
    are nodes; only the optional second operand of \<open>FieldATan\<close> is nullable.
\<close>

subsection \<open>Values, store, errors\<close>

type_synonym BoutReal = real

type_synonym addr = nat

type_synonym store = "addr \<Rightarrow> BoutReal option"

text \<open>
  Modelled from the spec: the \<open>Context\<close> class is declared in field\_factory.hxx, which
  is not among the sources. The spec gives it as an immutable bundle of the four
  independent variables. No \<open>generate\<close> body of this header reads it.
\<close>

record Context =
  ctx_x :: BoutReal
  ctx_y :: BoutReal
  ctx_z :: BoutReal
  ctx_t :: BoutReal

datatype error =
    ParseException string
  | InvalidPointer
  | EndIteratorDeref
  | IntCastOutOfRange

subsection \<open>printf's \<open>%lu\<close>\<close>

definition digit_char :: "nat \<Rightarrow> char" where
  "digit_char d = ''0123456789'' ! d"

function format_lu :: "nat \<Rightarrow> string" where
  "format_lu n = (if n < 10 then [digit_char n]
                  else format_lu (n div 10) @ [digit_char (n mod 10)])"
  by pat_completeness auto
termination
  by (relation "measure (\<lambda>n. n)") auto

declare format_lu.simps [simp del]

subsection \<open>The C library functions used by the header\<close>

text \<open>
  \<open>atan\<close> and \<open>atan2\<close> come from \<open>cmath\<close>, not from the repository. Over the reals,
  \<open>atan\<close> is the arctangent and \<open>atan2 y x\<close> is the angle, in \<open>(-pi, pi]\<close>, of the
  point \<open>(x, y)\<close>; \<open>atan2 0 0\<close> is \<open>0\<close>.
\<close>

definition atan :: "BoutReal \<Rightarrow> BoutReal" where
  "atan v = arctan v"

definition atan2 :: "BoutReal \<Rightarrow> BoutReal \<Rightarrow> BoutReal" where
  "atan2 y x =
     (if 0 < x then arctan (y / x)
      else if x < 0 then (if 0 \<le> y then arctan (y / x) + pi else arctan (y / x) - pi)
      else if 0 < y then pi / 2
      else if y < 0 then - (pi / 2)
      else 0)"

text \<open>
  \<open>static_cast<int>\<close> of a \<open>double\<close> truncates toward zero; the behaviour is undefined
  when the truncated value is not an \<open>int\<close> (taken as 32 bits wide).
\<close>

definition INT_MIN :: int where
  "INT_MIN = - (2 ^ 31)"

definition INT_MAX :: int where
  "INT_MAX = 2 ^ 31 - 1"

definition trunc_toward_zero :: "BoutReal \<Rightarrow> int" where
  "trunc_toward_zero v = (if 0 \<le> v then \<lfloor>v\<rfloor> else \<lceil>v\<rceil>)"

definition static_cast_int :: "BoutReal \<Rightarrow> error + int" where
  "static_cast_int v =
     (if INT_MIN \<le> trunc_toward_zero v \<and> trunc_toward_zero v \<le> INT_MAX
      then Inr (trunc_toward_zero v)
      else Inl IntCastOutOfRange)"

text \<open>The implicit conversion of the \<open>int\<close> back to the \<open>BoutReal\<close> return type.\<close>

definition return_int :: "error + int \<Rightarrow> error + BoutReal" where
  "return_int r = (case r of Inl e \<Rightarrow> Inl e | Inr n \<Rightarrow> Inr (of_int n))"

subsection \<open>Addition and subtraction of doubles\<close>

text \<open>
  A double has a significand of 53 bits. The sum or difference of two doubles is the
  exact result rounded to the nearest double, a tie going to the one whose last bit
  is zero. \<open>round_to_even\<close> is that rounding on the multiples of one unit, and
  \<open>round_to_double\<close> applies it in units of the last place of the binade of its
  operand. The exponent is not bounded here: that is exact for every result of
  magnitude from \<open>2^-1022\<close> up to the largest double, and the results formed in
  \<open>FieldRound::generate\<close> from a double have magnitude at least one half.
\<close>

definition round_to_even :: "real \<Rightarrow> int" where
  "round_to_even q =
     (if q - of_int \<lfloor>q\<rfloor> < 1 / 2 then \<lfloor>q\<rfloor>
      else if 1 / 2 < q - of_int \<lfloor>q\<rfloor> then \<lfloor>q\<rfloor> + 1
      else if even \<lfloor>q\<rfloor> then \<lfloor>q\<rfloor>
      else \<lfloor>q\<rfloor> + 1)"

definition round_to_double :: "real \<Rightarrow> BoutReal" where
  "round_to_double x =
     (if x = 0 then 0
      else of_int (round_to_even (x / 2 powr (of_int \<lfloor>log 2 \<bar>x\<bar>\<rfloor> - 52)))
             * 2 powr (of_int \<lfloor>log 2 \<bar>x\<bar>\<rfloor> - 52))"

definition double_add :: "BoutReal \<Rightarrow> BoutReal \<Rightarrow> BoutReal" where
  "double_add a b = round_to_double (a + b)"

definition double_sub :: "BoutReal \<Rightarrow> BoutReal \<Rightarrow> BoutReal" where
  "double_sub a b = round_to_double (a - b)"

subsection \<open>The node classes\<close>

type_synonym single_arg_op = "BoutReal \<Rightarrow> BoutReal"

type_synonym double_arg_op = "BoutReal \<Rightarrow> BoutReal \<Rightarrow> BoutReal"

text \<open>
  One constructor for each class whose \<open>generate\<close> is defined in the header, with the
  class's data members as arguments (the template parameter \<open>Op\<close> is one of them).
  \<open>FieldOther\<close> stands for a node of any other class, known only by what its
  \<open>generate\<close> returns: the classes whose bodies are in fieldgenerators.cxx, and those of
  field\_factory.hxx.
\<close>

datatype FieldGenerator =
    FieldValuePtr addr
  | FieldGenOneArg single_arg_op FieldGenerator
  | FieldGenTwoArg double_arg_op FieldGenerator FieldGenerator
  | FieldATan FieldGenerator "FieldGenerator option"
  | FieldMin "FieldGenerator list"
  | FieldMax "FieldGenerator list"
  | FieldRound FieldGenerator
  | FieldOther "store \<Rightarrow> Context \<Rightarrow> error + BoutReal"

subsection \<open>generate\<close>

text \<open>
  \<open>generate\<close> returns the value together with a call log: the positions, among the
  node's own children, of the children whose \<open>generate\<close> this call invoked, in the
  order of the calls. (A child's own log stays with the child.) A failing child ends
  the call at once, as an exception or a crash would. C++ leaves open which operand
  of \<open>Op(A->generate(pos), B->generate(pos))\<close> and of the \<open>atan2\<close> call is evaluated
  first; the model takes \<open>A\<close> first, and no property below depends on that order.

  The \<open>for\<close> loops of \<open>FieldMin::generate\<close> and \<open>FieldMax::generate\<close> run over the
  results of the children, from the iterator's position \<open>i\<close>, with the running
  \<open>result\<close>.
\<close>

fun FieldMin_for ::
  "(error + BoutReal) list \<Rightarrow> nat \<Rightarrow> BoutReal \<Rightarrow> nat list \<Rightarrow> (error + BoutReal) \<times> nat list" where
  "FieldMin_for [] i result calls = (Inr result, calls)"
| "FieldMin_for (r # rs) i result calls =
     (case r of
        Inl e \<Rightarrow> (Inl e, calls @ [i])
      | Inr val \<Rightarrow> FieldMin_for rs (Suc i) (if val < result then val else result) (calls @ [i]))"

fun FieldMax_for ::
  "(error + BoutReal) list \<Rightarrow> nat \<Rightarrow> BoutReal \<Rightarrow> nat list \<Rightarrow> (error + BoutReal) \<times> nat list" where
  "FieldMax_for [] i result calls = (Inr result, calls)"
| "FieldMax_for (r # rs) i result calls =
     (case r of
        Inl e \<Rightarrow> (Inl e, calls @ [i])
      | Inr val \<Rightarrow> FieldMax_for rs (Suc i) (if val > result then val else result) (calls @ [i]))"

fun generate :: "store \<Rightarrow> Context \<Rightarrow> FieldGenerator \<Rightarrow> (error + BoutReal) \<times> nat list" where
  "generate s pos (FieldValuePtr ptr) =
     (case s ptr of None \<Rightarrow> (Inl InvalidPointer, []) | Some v \<Rightarrow> (Inr v, []))"
| "generate s pos (FieldGenOneArg Op gen) =
     (case fst (generate s pos gen) of
        Inl e \<Rightarrow> (Inl e, [0])
      | Inr v \<Rightarrow> (Inr (Op v), [0]))"
| "generate s pos (FieldGenTwoArg Op A B) =
     (case fst (generate s pos A) of
        Inl e \<Rightarrow> (Inl e, [0])
      | Inr a \<Rightarrow>
          (case fst (generate s pos B) of
             Inl e \<Rightarrow> (Inl e, [0, 1])
           | Inr b \<Rightarrow> (Inr (Op a b), [0, 1])))"
| "generate s pos (FieldATan A B) =
     (case B of
        None \<Rightarrow>
          (case fst (generate s pos A) of
             Inl e \<Rightarrow> (Inl e, [0])
           | Inr a \<Rightarrow> (Inr (atan a), [0]))
      | Some B' \<Rightarrow>
          (case fst (generate s pos A) of
             Inl e \<Rightarrow> (Inl e, [0])
           | Inr a \<Rightarrow>
               (case fst (generate s pos B') of
                  Inl e \<Rightarrow> (Inl e, [0, 1])
                | Inr b \<Rightarrow> (Inr (atan2 a b), [0, 1]))))"
| "generate s pos (FieldMin input) =
     (case input of
        [] \<Rightarrow> (Inl EndIteratorDeref, [])
      | it # _ \<Rightarrow>
          (case fst (generate s pos it) of
             Inl e \<Rightarrow> (Inl e, [0])
           | Inr result \<Rightarrow>
               FieldMin_for (map (\<lambda>g. fst (generate s pos g)) input) 0 result [0]))"
| "generate s pos (FieldMax input) =
     (case input of
        [] \<Rightarrow> (Inl EndIteratorDeref, [])
      | it # _ \<Rightarrow>
          (case fst (generate s pos it) of
             Inl e \<Rightarrow> (Inl e, [0])
           | Inr result \<Rightarrow>
               FieldMax_for (map (\<lambda>g. fst (generate s pos g)) input) 0 result [0]))"
| "generate s pos (FieldRound gen) =
     (case fst (generate s pos gen) of
        Inl e \<Rightarrow> (Inl e, [0])
      | Inr val \<Rightarrow>
          (if val > 0.0 then (return_int (static_cast_int (double_add val 0.5)), [0])
           else (return_int (static_cast_int (double_sub val 0.5)), [0])))"
| "generate s pos (FieldOther f) = (f s pos, [])"

subsection \<open>clone\<close>

text \<open>
  \<open>clone\<close> reads nothing of the node it is called on but the template parameter
  \<open>Op\<close> and the pointer of a \<open>FieldValuePtr\<close>, so each \<open>clone\<close> is a function of
  these and of the argument list. \<open>args.front()\<close> and \<open>args.back()\<close> are \<open>hd\<close> and
  \<open>last\<close>, called only behind the size checks of the source. \<open>ParseException\<close>
  formats its message as \<open>printf\<close> does.
\<close>

definition FieldValuePtr_clone :: "addr \<Rightarrow> FieldGenerator list \<Rightarrow> error + FieldGenerator" where
  "FieldValuePtr_clone ptr args = Inr (FieldValuePtr ptr)"

definition FieldGenOneArg_clone ::
  "single_arg_op \<Rightarrow> FieldGenerator list \<Rightarrow> error + FieldGenerator" where
  "FieldGenOneArg_clone Op args =
     (if length args \<noteq> 1
      then Inl (ParseException
        (''Incorrect number of arguments to function. Expecting 1, got '' @ format_lu (length args)))
      else Inr (FieldGenOneArg Op (hd args)))"

definition FieldGenTwoArg_clone ::
  "double_arg_op \<Rightarrow> FieldGenerator list \<Rightarrow> error + FieldGenerator" where
  "FieldGenTwoArg_clone Op args =
     (if length args \<noteq> 2
      then Inl (ParseException
        (''Incorrect number of arguments to function. Expecting 2, got '' @ format_lu (length args)))
      else Inr (FieldGenTwoArg Op (hd args) (last args)))"

definition FieldATan_clone :: "FieldGenerator list \<Rightarrow> error + FieldGenerator" where
  "FieldATan_clone args =
     (if length args = 1 then Inr (FieldATan (hd args) None)
      else if length args = 2 then Inr (FieldATan (hd args) (Some (last args)))
      else Inl (ParseException
        (''Incorrect number of arguments to atan function. Expecting 1 or 2, got ''
          @ format_lu (length args))))"

definition FieldMin_clone :: "FieldGenerator list \<Rightarrow> error + FieldGenerator" where
  "FieldMin_clone args =
     (if length args = 0 then Inl (ParseException ''min function must have some inputs'')
      else Inr (FieldMin args))"

definition FieldMax_clone :: "FieldGenerator list \<Rightarrow> error + FieldGenerator" where
  "FieldMax_clone args =
     (if length args = 0 then Inl (ParseException ''max function must have some inputs'')
      else Inr (FieldMax args))"

definition FieldRound_clone :: "FieldGenerator list \<Rightarrow> error + FieldGenerator" where
  "FieldRound_clone args =
     (if length args \<noteq> 1 then Inl (ParseException ''round function must have one input'')
      else Inr (FieldRound (hd args)))"

text \<open>The defaulted constructors \<open>FieldMin()\<close> and \<open>FieldMax()\<close> leave \<open>input\<close> empty.\<close>

definition FieldMin_default :: FieldGenerator where
  "FieldMin_default = FieldMin []"

definition FieldMax_default :: FieldGenerator where
  "FieldMax_default = FieldMax []"

subsection \<open>str\<close>

text \<open>
  The header overrides \<open>str\<close> in five classes. Each override is a function of the
  strings its children's \<open>str\<close> return (and, for the templates, of the parameter
  \<open>Op\<close>, which the body does not use).
\<close>

definition FieldSin_str :: "string \<Rightarrow> string" where
  "FieldSin_str gen_str = ''sin('' @ gen_str @ '')''"

definition FieldCos_str :: "string \<Rightarrow> string" where
  "FieldCos_str gen_str = ''cos('' @ gen_str @ '')''"

definition FieldGenOneArg_str :: "single_arg_op \<Rightarrow> string \<Rightarrow> string" where
  "FieldGenOneArg_str Op gen_str = ''func('' @ gen_str @ '')''"

definition FieldGenTwoArg_str :: "double_arg_op \<Rightarrow> string \<Rightarrow> string \<Rightarrow> string" where
  "FieldGenTwoArg_str Op A_str B_str = ''cos('' @ A_str @ '','' @ B_str @ '')''"

definition FieldHeaviside_str :: "string \<Rightarrow> string" where
  "FieldHeaviside_str gen_str = ''H('' @ gen_str @ '')''"

section \<open>Properties\<close>

subsection \<open>The scans of FieldMin and FieldMax\<close>

text \<open>
  When every remaining child returns a value, the loop folds the comparison over the
  values and logs one call for each position it passes.
\<close>

lemma FieldMin_for_Inr:
  "FieldMin_for (map Inr vs) i r calls =
     (Inr (foldl (\<lambda>result val. if val < result then val else result) r vs),
      calls @ [i ..< i + length vs])"
  by (induction vs arbitrary: i r calls) (simp_all add: upt_rec)

lemma FieldMax_for_Inr:
  "FieldMax_for (map Inr vs) i r calls =
     (Inr (foldl (\<lambda>result val. if val > result then val else result) r vs),
      calls @ [i ..< i + length vs])"
  by (induction vs arbitrary: i r calls) (simp_all add: upt_rec)

lemma foldl_less_Min:
  "foldl (\<lambda>result val. if val < result then val else result) r vs = Min (insert (r::real) (set vs))"
proof (induction vs arbitrary: r)
  case Nil
  show ?case by simp
next
  case (Cons v vs)
  have step: "(if v < r then v else r) = min r v" by (simp add: min_def)
  have "Min (insert (min r v) (set vs)) = Min (insert r (insert v (set vs)))"
    by (cases "set vs = {}") (simp_all add: min.assoc)
  then show ?case using Cons[of "min r v"] step by simp
qed

lemma foldl_greater_Max:
  "foldl (\<lambda>result val. if val > result then val else result) r vs = Max (insert (r::real) (set vs))"
proof (induction vs arbitrary: r)
  case Nil
  show ?case by simp
next
  case (Cons v vs)
  have step: "(if v > r then v else r) = max r v" by (simp add: max_def)
  have "Max (insert (max r v) (set vs)) = Max (insert r (insert v (set vs)))"
    by (cases "set vs = {}") (simp_all add: max.assoc)
  then show ?case using Cons[of "max r v"] step by simp
qed

text \<open>
  The whole call on a non-empty list whose children all return values: the seed is the
  first child's value, and the loop starts again at the first child.
\<close>

lemma FieldMin_generate_values:
  assumes "map (\<lambda>g. fst (generate s pos g)) (it # rest) = map Inr (v # vs)"
  shows "generate s pos (FieldMin (it # rest)) =
           (Inr (foldl (\<lambda>result val. if val < result then val else result) v (v # vs)),
            0 # [0 ..< length (it # rest)])"
proof -
  have seed: "fst (generate s pos it) = Inr v" using assms by simp
  have len: "length (it # rest) = length (v # vs)" using assms by (rule map_eq_imp_length_eq)
  have "generate s pos (FieldMin (it # rest)) =
          FieldMin_for (map (\<lambda>g. fst (generate s pos g)) (it # rest)) 0 v [0]"
    by (simp only: generate.simps list.case seed sum.case)
  also have "\<dots> = FieldMin_for (map Inr (v # vs)) 0 v [0]"
    by (simp only: assms)
  also have "\<dots> = (Inr (foldl (\<lambda>result val. if val < result then val else result) v (v # vs)),
                   [0] @ [0 ..< 0 + length (v # vs)])"
    by (rule FieldMin_for_Inr)
  finally show ?thesis by (simp only: len append_Cons append_Nil add_0)
qed

lemma FieldMax_generate_values:
  assumes "map (\<lambda>g. fst (generate s pos g)) (it # rest) = map Inr (v # vs)"
  shows "generate s pos (FieldMax (it # rest)) =
           (Inr (foldl (\<lambda>result val. if val > result then val else result) v (v # vs)),
            0 # [0 ..< length (it # rest)])"
proof -
  have seed: "fst (generate s pos it) = Inr v" using assms by simp
  have len: "length (it # rest) = length (v # vs)" using assms by (rule map_eq_imp_length_eq)
  have "generate s pos (FieldMax (it # rest)) =
          FieldMax_for (map (\<lambda>g. fst (generate s pos g)) (it # rest)) 0 v [0]"
    by (simp only: generate.simps list.case seed sum.case)
  also have "\<dots> = FieldMax_for (map Inr (v # vs)) 0 v [0]"
    by (simp only: assms)
  also have "\<dots> = (Inr (foldl (\<lambda>result val. if val > result then val else result) v (v # vs)),
                   [0] @ [0 ..< 0 + length (v # vs)])"
    by (rule FieldMax_for_Inr)
  finally show ?thesis by (simp only: len append_Cons append_Nil add_0)
qed

lemma children_values_shape:
  assumes "input \<noteq> []" and "map f input = map Inr vals"
  obtains it rest v vs where "input = it # rest" and "vals = v # vs"
  using assms by (cases input; cases vals) auto

subsection \<open>Minimum and maximum\<close>

text \<open>
  C2. For a non-empty child list whose children return the values \<open>vals\<close>, in any
  context, \<open>FieldMin::generate\<close> returns the least and \<open>FieldMax::generate\<close> the
  greatest of \<open>vals\<close>; \<open>clone\<close> of a non-empty list builds that node, and \<open>clone\<close> of
  the empty list throws a \<open>ParseException\<close>. Over the values 3, 1, 2 the results are
  1 and 3, and over a single child its own value (the instances below).
\<close>

theorem FieldMin_FieldMax_extremum:
  assumes "input \<noteq> []"
    and "map (\<lambda>g. fst (generate s pos g)) input = map Inr vals"
  shows "fst (generate s pos (FieldMin input)) = Inr (Min (set vals))
       \<and> fst (generate s pos (FieldMax input)) = Inr (Max (set vals))
       \<and> FieldMin_clone input = Inr (FieldMin input)
       \<and> FieldMax_clone input = Inr (FieldMax input)
       \<and> FieldMin_clone [] = Inl (ParseException ''min function must have some inputs'')
       \<and> FieldMax_clone [] = Inl (ParseException ''max function must have some inputs'')"
proof -
  obtain it rest v vs where shape: "input = it # rest" "vals = v # vs"
    using assms by (rule children_values_shape)
  have kids: "map (\<lambda>g. fst (generate s pos g)) (it # rest) = map Inr (v # vs)"
    using assms(2) shape by simp
  have "fst (generate s pos (FieldMin input)) = Inr (Min (set vals))"
    unfolding shape FieldMin_generate_values [OF kids] by (simp add: foldl_less_Min)
  moreover have "fst (generate s pos (FieldMax input)) = Inr (Max (set vals))"
    unfolding shape FieldMax_generate_values [OF kids] by (simp add: foldl_greater_Max)
  moreover have "FieldMin_clone input = Inr (FieldMin input)"
    using assms(1) by (simp add: FieldMin_clone_def)
  moreover have "FieldMax_clone input = Inr (FieldMax input)"
    using assms(1) by (simp add: FieldMax_clone_def)
  moreover have "FieldMin_clone [] = Inl (ParseException ''min function must have some inputs'')"
    by (simp add: FieldMin_clone_def)
  moreover have "FieldMax_clone [] = Inl (ParseException ''max function must have some inputs'')"
    by (simp add: FieldMax_clone_def)
  ultimately show ?thesis by simp
qed

theorem FieldMin_FieldMax_extremum_witness:
  "[FieldValuePtr 0, FieldValuePtr 1, FieldValuePtr 2] \<noteq> []
   \<and> map (\<lambda>g. fst (generate [0 \<mapsto> 3, 1 \<mapsto> 1, 2 \<mapsto> 2] \<lparr>ctx_x = 0, ctx_y = 0, ctx_z = 0, ctx_t = 0\<rparr> g))
        [FieldValuePtr 0, FieldValuePtr 1, FieldValuePtr 2] = map Inr [3, 1, 2]
   \<and> fst (generate [0 \<mapsto> 3, 1 \<mapsto> 1, 2 \<mapsto> 2] \<lparr>ctx_x = 0, ctx_y = 0, ctx_z = 0, ctx_t = 0\<rparr>
        (FieldMin [FieldValuePtr 0, FieldValuePtr 1, FieldValuePtr 2])) = Inr 1
   \<and> fst (generate [0 \<mapsto> 3, 1 \<mapsto> 1, 2 \<mapsto> 2] \<lparr>ctx_x = 0, ctx_y = 0, ctx_z = 0, ctx_t = 0\<rparr>
        (FieldMax [FieldValuePtr 0, FieldValuePtr 1, FieldValuePtr 2])) = Inr 3
   \<and> fst (generate [0 \<mapsto> 7] \<lparr>ctx_x = 0, ctx_y = 0, ctx_z = 0, ctx_t = 0\<rparr> (FieldMin [FieldValuePtr 0])) = Inr 7
   \<and> fst (generate [0 \<mapsto> 7] \<lparr>ctx_x = 0, ctx_y = 0, ctx_z = 0, ctx_t = 0\<rparr> (FieldMax [FieldValuePtr 0])) = Inr 7"
proof -
  let ?s = "[0 \<mapsto> 3, 1 \<mapsto> 1, 2 \<mapsto> 2] :: store"
  let ?pos = "\<lparr>ctx_x = 0, ctx_y = 0, ctx_z = 0, ctx_t = 0\<rparr>"
  let ?input = "[FieldValuePtr 0, FieldValuePtr 1, FieldValuePtr 2]"
  have ne: "?input \<noteq> []" by simp
  have kids: "map (\<lambda>g. fst (generate ?s ?pos g)) ?input = map Inr [3, 1, 2]" by simp
  have ne1: "[FieldValuePtr 0] \<noteq> []" by simp
  have kids1: "map (\<lambda>g. fst (generate [0 \<mapsto> 7] ?pos g)) [FieldValuePtr 0] = map Inr [7]" by simp
  show ?thesis
    using ne kids FieldMin_FieldMax_extremum [OF ne kids] FieldMin_FieldMax_extremum [OF ne1 kids1]
    by simp
qed

subsection \<open>The order and number of the calls\<close>

lemma count_list_upt: "count_list [a ..< b] i = (if a \<le> i \<and> i < b then 1 else 0)"
  by (induction b) auto

text \<open>
  C1 (as amended). On a non-empty child list whose children all return values, in any
  context, \<open>FieldMin::generate\<close> and \<open>FieldMax::generate\<close> scan left to right without
  short-circuit: the first child is called to seed the running result and the loop
  then starts at the first child again, so the first child is called twice and every
  later child exactly once, in list order. The result is the seed updated at each
  child whose value is strictly less (for the maximum: strictly greater), so that a
  tie keeps the earlier value.
\<close>

theorem FieldMin_FieldMax_scan:
  assumes "input \<noteq> []"
    and "map (\<lambda>g. fst (generate s pos g)) input = map Inr vals"
  shows "snd (generate s pos (FieldMin input)) = 0 # [0 ..< length input]
       \<and> snd (generate s pos (FieldMax input)) = 0 # [0 ..< length input]
       \<and> (\<forall>i < length input.
            count_list (snd (generate s pos (FieldMin input))) i = (if i = 0 then 2 else 1)
          \<and> count_list (snd (generate s pos (FieldMax input))) i = (if i = 0 then 2 else 1))
       \<and> fst (generate s pos (FieldMin input)) =
            Inr (foldl (\<lambda>result val. if val < result then val else result) (hd vals) vals)
       \<and> fst (generate s pos (FieldMax input)) =
            Inr (foldl (\<lambda>result val. if val > result then val else result) (hd vals) vals)"
proof -
  obtain it rest v vs where shape: "input = it # rest" "vals = v # vs"
    using assms by (rule children_values_shape)
  have kids: "map (\<lambda>g. fst (generate s pos g)) (it # rest) = map Inr (v # vs)"
    using assms(2) shape by simp
  have logmin: "snd (generate s pos (FieldMin input)) = 0 # [0 ..< length input]"
    unfolding shape FieldMin_generate_values [OF kids] by simp
  have logmax: "snd (generate s pos (FieldMax input)) = 0 # [0 ..< length input]"
    unfolding shape FieldMax_generate_values [OF kids] by simp
  have counts: "count_list (0 # [0 ..< length input]) i = (if i = 0 then 2 else 1)"
    if "i < length input" for i
    using that by (auto simp add: count_list_upt)
  have valmin: "fst (generate s pos (FieldMin input)) =
      Inr (foldl (\<lambda>result val. if val < result then val else result) (hd vals) vals)"
    unfolding shape FieldMin_generate_values [OF kids] by simp
  have valmax: "fst (generate s pos (FieldMax input)) =
      Inr (foldl (\<lambda>result val. if val > result then val else result) (hd vals) vals)"
    unfolding shape FieldMax_generate_values [OF kids] by simp
  show ?thesis
    unfolding logmin logmax using counts valmin valmax by simp
qed

theorem FieldMin_FieldMax_scan_witness:
  "[FieldValuePtr 0, FieldValuePtr 1, FieldValuePtr 2] \<noteq> []
   \<and> map (\<lambda>g. fst (generate [0 \<mapsto> 3, 1 \<mapsto> 1, 2 \<mapsto> 1] \<lparr>ctx_x = 0, ctx_y = 0, ctx_z = 0, ctx_t = 0\<rparr> g))
        [FieldValuePtr 0, FieldValuePtr 1, FieldValuePtr 2] = map Inr [3, 1, 1]
   \<and> generate [0 \<mapsto> 3, 1 \<mapsto> 1, 2 \<mapsto> 1] \<lparr>ctx_x = 0, ctx_y = 0, ctx_z = 0, ctx_t = 0\<rparr>
        (FieldMin [FieldValuePtr 0, FieldValuePtr 1, FieldValuePtr 2]) = (Inr 1, [0, 0, 1, 2])
   \<and> generate [0 \<mapsto> 3, 1 \<mapsto> 1, 2 \<mapsto> 1] \<lparr>ctx_x = 0, ctx_y = 0, ctx_z = 0, ctx_t = 0\<rparr>
        (FieldMax [FieldValuePtr 0, FieldValuePtr 1, FieldValuePtr 2]) = (Inr 3, [0, 0, 1, 2])"
proof -
  let ?s = "[0 \<mapsto> 3, 1 \<mapsto> 1, 2 \<mapsto> 1] :: store"
  let ?pos = "\<lparr>ctx_x = 0, ctx_y = 0, ctx_z = 0, ctx_t = 0\<rparr>"
  let ?input = "[FieldValuePtr 0, FieldValuePtr 1, FieldValuePtr 2]"
  have ne: "?input \<noteq> []" by simp
  have kids: "map (\<lambda>g. fst (generate ?s ?pos g)) ?input = map Inr [3, 1, 1]" by simp
  have upt3: "[0 ..< 3] = [0, 1, 2::nat]" by (simp add: upt_rec)
  show ?thesis
    using ne kids FieldMin_FieldMax_scan [OF ne kids]
    by (simp add: prod_eq_iff upt3)
qed

text \<open>
  C1 as stated says that every child is evaluated exactly once in a call. On a list
  of one child, that child is called twice.
\<close>

theorem FieldMin_FieldMax_once_counterexample:
  "snd (generate [0 \<mapsto> 3] \<lparr>ctx_x = 0, ctx_y = 0, ctx_z = 0, ctx_t = 0\<rparr> (FieldMin [FieldValuePtr 0])) = [0, 0]
   \<and> count_list (snd (generate [0 \<mapsto> 3] \<lparr>ctx_x = 0, ctx_y = 0, ctx_z = 0, ctx_t = 0\<rparr> (FieldMin [FieldValuePtr 0]))) 0 \<noteq> 1
   \<and> snd (generate [0 \<mapsto> 3] \<lparr>ctx_x = 0, ctx_y = 0, ctx_z = 0, ctx_t = 0\<rparr> (FieldMax [FieldValuePtr 0])) = [0, 0]
   \<and> count_list (snd (generate [0 \<mapsto> 3] \<lparr>ctx_x = 0, ctx_y = 0, ctx_z = 0, ctx_t = 0\<rparr> (FieldMax [FieldValuePtr 0]))) 0 \<noteq> 1"
  by simp

subsection \<open>The empty child list\<close>

lemma children_all_values:
  assumes "\<forall>g \<in> set input. \<exists>v. f g = Inr v"
  shows "\<exists>vals. map f input = map Inr vals"
  using assms
proof (induction input)
  case Nil
  show ?case by simp
next
  case (Cons g gs)
  then obtain v vals where "f g = Inr v" and "map f gs = map Inr vals" by auto
  then have "map f (g # gs) = map Inr (v # vals)" by simp
  then show ?case by blast
qed

text \<open>
  C9. \<open>FieldMin::generate\<close> and \<open>FieldMax::generate\<close> dereference \<open>input.begin()\<close>
  before any test of emptiness. With children that all return values, the call
  returns a value exactly when the child list is not empty; on the empty list it is
  the dereference of the end iterator. Every node that \<open>FieldMin::clone\<close> or
  \<open>FieldMax::clone\<close> returns has a non-empty list, while the nodes of the defaulted
  constructors have an empty one, and \<open>generate\<close> has no defined result on them.
\<close>

theorem FieldMin_FieldMax_need_input:
  assumes "\<forall>g \<in> set input. \<exists>v. fst (generate s pos g) = Inr v"
  shows "((\<exists>v. fst (generate s pos (FieldMin input)) = Inr v) \<longleftrightarrow> input \<noteq> [])
       \<and> ((\<exists>v. fst (generate s pos (FieldMax input)) = Inr v) \<longleftrightarrow> input \<noteq> [])
       \<and> generate s pos (FieldMin []) = (Inl EndIteratorDeref, [])
       \<and> generate s pos (FieldMax []) = (Inl EndIteratorDeref, [])
       \<and> (\<forall>args node. FieldMin_clone args = Inr node \<longrightarrow> (\<exists>inp. node = FieldMin inp \<and> inp \<noteq> []))
       \<and> (\<forall>args node. FieldMax_clone args = Inr node \<longrightarrow> (\<exists>inp. node = FieldMax inp \<and> inp \<noteq> []))
       \<and> generate s pos FieldMin_default = (Inl EndIteratorDeref, [])
       \<and> generate s pos FieldMax_default = (Inl EndIteratorDeref, [])"
proof -
  have empty_min: "generate s pos (FieldMin []) = (Inl EndIteratorDeref, [])"
    by (simp only: generate.simps list.case)
  have empty_max: "generate s pos (FieldMax []) = (Inl EndIteratorDeref, [])"
    by (simp only: generate.simps list.case)
  have some: "(\<exists>v. fst (generate s pos (FieldMin input)) = Inr v)
            \<and> (\<exists>v. fst (generate s pos (FieldMax input)) = Inr v)" if ne: "input \<noteq> []"
  proof -
    obtain vals where kids: "map (\<lambda>g. fst (generate s pos g)) input = map Inr vals"
      using children_all_values [OF assms] by blast
    obtain it rest v vs where shape: "input = it # rest" "vals = v # vs"
      using ne kids by (rule children_values_shape)
    have kids': "map (\<lambda>g. fst (generate s pos g)) (it # rest) = map Inr (v # vs)"
      using kids shape by simp
    show ?thesis
      unfolding shape FieldMin_generate_values [OF kids'] FieldMax_generate_values [OF kids']
      by simp
  qed
  have min_iff: "(\<exists>v. fst (generate s pos (FieldMin input)) = Inr v) \<longleftrightarrow> input \<noteq> []"
    using some empty_min by (cases "input = []") simp_all
  have max_iff: "(\<exists>v. fst (generate s pos (FieldMax input)) = Inr v) \<longleftrightarrow> input \<noteq> []"
    using some empty_max by (cases "input = []") simp_all
  have clone_min: "\<forall>args node. FieldMin_clone args = Inr node \<longrightarrow> (\<exists>inp. node = FieldMin inp \<and> inp \<noteq> [])"
    by (auto simp add: FieldMin_clone_def split: if_splits)
  have clone_max: "\<forall>args node. FieldMax_clone args = Inr node \<longrightarrow> (\<exists>inp. node = FieldMax inp \<and> inp \<noteq> [])"
    by (auto simp add: FieldMax_clone_def split: if_splits)
  show ?thesis
    unfolding FieldMin_default_def FieldMax_default_def
    using min_iff max_iff empty_min empty_max clone_min clone_max by blast
qed

theorem FieldMin_FieldMax_need_input_witness:
  "fst (generate [0 \<mapsto> 3, 1 \<mapsto> 1] \<lparr>ctx_x = 0, ctx_y = 0, ctx_z = 0, ctx_t = 0\<rparr> (FieldValuePtr 0)) = Inr 3
   \<and> fst (generate [0 \<mapsto> 3, 1 \<mapsto> 1] \<lparr>ctx_x = 0, ctx_y = 0, ctx_z = 0, ctx_t = 0\<rparr> (FieldValuePtr 1)) = Inr 1
   \<and> (\<exists>v. fst (generate [0 \<mapsto> 3, 1 \<mapsto> 1] \<lparr>ctx_x = 0, ctx_y = 0, ctx_z = 0, ctx_t = 0\<rparr>
         (FieldMin [FieldValuePtr 0, FieldValuePtr 1])) = Inr v)
   \<and> (\<exists>v. fst (generate [0 \<mapsto> 3, 1 \<mapsto> 1] \<lparr>ctx_x = 0, ctx_y = 0, ctx_z = 0, ctx_t = 0\<rparr>
         (FieldMax [FieldValuePtr 0, FieldValuePtr 1])) = Inr v)
   \<and> FieldMin_clone [FieldValuePtr 0, FieldValuePtr 1] = Inr (FieldMin [FieldValuePtr 0, FieldValuePtr 1])
   \<and> generate [0 \<mapsto> 3, 1 \<mapsto> 1] \<lparr>ctx_x = 0, ctx_y = 0, ctx_z = 0, ctx_t = 0\<rparr> FieldMin_default
       = (Inl EndIteratorDeref, [])
   \<and> generate [0 \<mapsto> 3, 1 \<mapsto> 1] \<lparr>ctx_x = 0, ctx_y = 0, ctx_z = 0, ctx_t = 0\<rparr> FieldMax_default
       = (Inl EndIteratorDeref, [])"
proof -
  let ?s = "[0 \<mapsto> 3, 1 \<mapsto> 1] :: store"
  let ?pos = "\<lparr>ctx_x = 0, ctx_y = 0, ctx_z = 0, ctx_t = 0\<rparr>"
  have kids: "\<forall>g \<in> set [FieldValuePtr 0, FieldValuePtr 1]. \<exists>v. fst (generate ?s ?pos g) = Inr v"
    by simp
  have cl: "FieldMin_clone [FieldValuePtr 0, FieldValuePtr 1] = Inr (FieldMin [FieldValuePtr 0, FieldValuePtr 1])"
    by (simp add: FieldMin_clone_def)
  show ?thesis
    using kids cl FieldMin_FieldMax_need_input [OF kids] by simp
qed

subsection \<open>Operand order of the two-argument template\<close>

text \<open>
  C10. \<open>FieldGenTwoArg::clone\<close> of a two-element list makes the first element the
  operand \<open>A\<close> and the last element the operand \<open>B\<close>; in every context the node built
  returns \<open>Op\<close> of the first child's value and the second child's value, in this
  order. (The instance below uses subtraction, which tells the two orders apart.)
\<close>

theorem FieldGenTwoArg_clone_order:
  assumes "fst (generate s pos a) = Inr va" and "fst (generate s pos b) = Inr vb"
  shows "FieldGenTwoArg_clone Op [a, b] = Inr (FieldGenTwoArg Op a b)
       \<and> fst (generate s pos (FieldGenTwoArg Op a b)) = Inr (Op va vb)"
proof -
  have "FieldGenTwoArg_clone Op [a, b] = Inr (FieldGenTwoArg Op a b)"
    by (simp add: FieldGenTwoArg_clone_def)
  moreover have "fst (generate s pos (FieldGenTwoArg Op a b)) = Inr (Op va vb)"
    by (simp only: generate.simps assms sum.case fst_conv)
  ultimately show ?thesis by simp
qed

theorem FieldGenTwoArg_clone_order_witness:
  "fst (generate [0 \<mapsto> 5, 1 \<mapsto> 3] \<lparr>ctx_x = 0, ctx_y = 0, ctx_z = 0, ctx_t = 0\<rparr> (FieldValuePtr 0)) = Inr 5
   \<and> fst (generate [0 \<mapsto> 5, 1 \<mapsto> 3] \<lparr>ctx_x = 0, ctx_y = 0, ctx_z = 0, ctx_t = 0\<rparr> (FieldValuePtr 1)) = Inr 3
   \<and> FieldGenTwoArg_clone (\<lambda>u v. u - v) [FieldValuePtr 0, FieldValuePtr 1]
        = Inr (FieldGenTwoArg (\<lambda>u v. u - v) (FieldValuePtr 0) (FieldValuePtr 1))
   \<and> fst (generate [0 \<mapsto> 5, 1 \<mapsto> 3] \<lparr>ctx_x = 0, ctx_y = 0, ctx_z = 0, ctx_t = 0\<rparr>
        (FieldGenTwoArg (\<lambda>u v. u - v) (FieldValuePtr 0) (FieldValuePtr 1))) = Inr 2"
proof -
  let ?s = "[0 \<mapsto> 5, 1 \<mapsto> 3] :: store"
  let ?pos = "\<lparr>ctx_x = 0, ctx_y = 0, ctx_z = 0, ctx_t = 0\<rparr>"
  have a: "fst (generate ?s ?pos (FieldValuePtr 0)) = Inr 5" by simp
  have b: "fst (generate ?s ?pos (FieldValuePtr 1)) = Inr 3" by simp
  show ?thesis
    using a b FieldGenTwoArg_clone_order [OF a b, of "\<lambda>u v. u - v"] by simp
qed

subsection \<open>The live binding\<close>

text \<open>
  C7. \<open>FieldValuePtr::generate\<close> reads the cell through the pointer at every call:
  it returns the value the store holds at the address at the time of the call, so
  after the cell is overwritten with \<open>w\<close> the same node returns \<open>w\<close>.
  \<open>FieldValuePtr::clone\<close> ignores its argument list, whatever its size, and returns a
  \<open>FieldValuePtr\<close> on the same address.
\<close>

theorem FieldValuePtr_live_binding:
  "(s ptr = Some v \<longrightarrow> fst (generate s pos (FieldValuePtr ptr)) = Inr v)
   \<and> fst (generate (s(ptr \<mapsto> w)) pos (FieldValuePtr ptr)) = Inr w
   \<and> FieldValuePtr_clone ptr args = Inr (FieldValuePtr ptr)
   \<and> (\<forall>node. FieldValuePtr_clone ptr args = Inr node \<longrightarrow>
         fst (generate (s(ptr \<mapsto> w)) pos node) = Inr w)"
  by (simp add: FieldValuePtr_clone_def)

theorem FieldValuePtr_live_binding_witness:
  "[0 \<mapsto> 3] (0::nat) = Some (3::real)
   \<and> fst (generate [0 \<mapsto> 3] \<lparr>ctx_x = 0, ctx_y = 0, ctx_z = 0, ctx_t = 0\<rparr> (FieldValuePtr 0)) = Inr 3
   \<and> fst (generate ([0 \<mapsto> 3](0 \<mapsto> 4)) \<lparr>ctx_x = 0, ctx_y = 0, ctx_z = 0, ctx_t = 0\<rparr> (FieldValuePtr 0)) = Inr 4
   \<and> FieldValuePtr_clone 0 [FieldValuePtr 1, FieldValuePtr 2] = Inr (FieldValuePtr 0)"
  using FieldValuePtr_live_binding
    [of "[0 \<mapsto> 3]" 0 3 "\<lparr>ctx_x = 0, ctx_y = 0, ctx_z = 0, ctx_t = 0\<rparr>" 4 "[FieldValuePtr 1, FieldValuePtr 2]"]
  by simp

subsection \<open>Rounding\<close>

text \<open>
  The conversion to \<open>int\<close> truncates toward zero: the integer keeps the sign of the
  operand and its magnitude is the integer part of the operand's magnitude.
\<close>

lemma trunc_toward_zero_bounds:
  "\<bar>real_of_int (trunc_toward_zero x)\<bar> \<le> \<bar>x\<bar>
   \<and> \<bar>x\<bar> < \<bar>real_of_int (trunc_toward_zero x)\<bar> + 1
   \<and> 0 \<le> real_of_int (trunc_toward_zero x) * x"
proof (cases "0 \<le> x")
  case True
  then have "trunc_toward_zero x = \<lfloor>x\<rfloor>" by (simp add: trunc_toward_zero_def)
  moreover have "0 \<le> \<lfloor>x\<rfloor>" using True by simp
  ultimately show ?thesis using True by (simp add: abs_if)
next
  case False
  then have t: "trunc_toward_zero x = \<lceil>x\<rceil>" by (simp add: trunc_toward_zero_def)
  have "\<lceil>x\<rceil> \<le> 0" using False by (simp add: ceiling_le_iff)
  then have le0: "real_of_int \<lceil>x\<rceil> \<le> 0" by simp
  have c1: "x \<le> real_of_int \<lceil>x\<rceil>" by (rule le_of_int_ceiling)
  have c2: "real_of_int \<lceil>x\<rceil> < x + 1" by linarith
  have neg: "x < 0" using False by simp
  have a1: "\<bar>real_of_int \<lceil>x\<rceil>\<bar> = - real_of_int \<lceil>x\<rceil>" using le0 by (rule abs_of_nonpos)
  have a2: "\<bar>x\<bar> = - x" using neg by (rule abs_of_neg)
  have "0 \<le> real_of_int \<lceil>x\<rceil> * x"
    using le0 neg by (simp add: mult_nonpos_nonpos)
  then show ?thesis unfolding t a1 a2 using c1 c2 by simp
qed

text \<open>
  Rounding to double, evaluated: within the binade of exponent \<open>e\<close> the unit is
  \<open>2^(e-52)\<close>; a multiple of the unit is a double and is left as it is; a value half
  way between two multiples goes to the even one.
\<close>

lemma round_to_double_binade:
  assumes "2 powr of_int e \<le> \<bar>x\<bar>" and "\<bar>x\<bar> < 2 powr (of_int e + 1)"
  shows "round_to_double x =
           of_int (round_to_even (x / 2 powr (of_int e - 52))) * 2 powr (of_int e - 52)"
proof -
  have "0 < 2 powr real_of_int e" by simp
  then have pos: "0 < \<bar>x\<bar>" using assms(1) by linarith
  then have nz: "x \<noteq> 0" by simp
  have "\<lfloor>log 2 \<bar>x\<bar>\<rfloor> = e"
    using floor_log_eq_powr_iff [of "\<bar>x\<bar>" 2 e] pos assms by simp
  then show ?thesis using nz by (simp add: round_to_double_def)
qed

lemma round_to_even_of_int: "round_to_even (of_int n) = n"
  by (simp add: round_to_even_def)

lemma round_to_even_tie:
  assumes "q = of_int n + 1 / 2"
  shows "round_to_even q = (if even n then n else n + 1)"
proof -
  have fl: "\<lfloor>q\<rfloor> = n" unfolding assms by linarith
  have "q - of_int \<lfloor>q\<rfloor> = 1 / 2" unfolding fl assms by simp
  then show ?thesis unfolding round_to_even_def fl by simp
qed

lemma powr_minus_53: "(2::real) powr (of_int (- 1) - 52) = 1 / 2 ^ 53"
proof -
  have "of_int (- 1) - 52 = (- 53 :: real)" by simp
  then show ?thesis by (simp add: powr_neg_numeral)
qed

lemma powr_minus_54: "(2::real) powr (of_int (- 2) - 52) = 1 / 2 ^ 54"
proof -
  have "of_int (- 2) - 52 = (- 54 :: real)" by simp
  then show ?thesis by (simp add: powr_neg_numeral)
qed

text \<open>
  The largest double below one half is \<open>1/2 - 2^-54\<close>. Adding one half to it gives
  \<open>1 - 2^-54\<close>, half way between the doubles \<open>1 - 2^-53\<close> and \<open>1\<close>, and the sum
  rounds to \<open>1\<close>.
\<close>

lemma largest_below_half_is_double:
  "round_to_double (1 / 2 - 1 / 2 ^ 54) = 1 / 2 - 1 / 2 ^ 54"
proof -
  have lo: "2 powr of_int (- 2) \<le> \<bar>1 / 2 - 1 / 2 ^ 54 :: real\<bar>"
    by (simp add: powr_neg_numeral)
  have hi: "\<bar>1 / 2 - 1 / 2 ^ 54 :: real\<bar> < 2 powr (of_int (- 2) + 1)"
    by (simp add: powr_neg_numeral)
  have q: "(1 / 2 - 1 / 2 ^ 54) / (1 / 2 ^ 54) = real_of_int (2 ^ 53 - 1)" by simp
  show ?thesis
    unfolding round_to_double_binade [OF lo hi] powr_minus_54 q round_to_even_of_int by simp
qed

lemma below_half_plus_half_rounds_to_one:
  "double_add (1 / 2 - 1 / 2 ^ 54) 0.5 = 1"
proof -
  have s: "(1 / 2 - 1 / 2 ^ 54) + 0.5 = (1 - 1 / 2 ^ 54 :: real)" by simp
  have lo: "2 powr of_int (- 1) \<le> \<bar>1 - 1 / 2 ^ 54 :: real\<bar>" by simp
  have hi: "\<bar>1 - 1 / 2 ^ 54 :: real\<bar> < 2 powr (of_int (- 1) + 1)" by simp
  have q: "(1 - 1 / 2 ^ 54) / (1 / 2 ^ 53) = real_of_int (2 ^ 53 - 1) + 1 / 2" by simp
  have odd: "\<not> even (2 ^ 53 - 1 :: int)" by simp
  have "round_to_even (real_of_int (2 ^ 53 - 1) + 1 / 2) = 2 ^ 53"
    using round_to_even_tie [of "real_of_int (2 ^ 53 - 1) + 1 / 2" "2 ^ 53 - 1"] odd by simp
  then show ?thesis
    unfolding double_add_def s round_to_double_binade [OF lo hi] powr_minus_53 q by simp
qed


lemma round_to_double_exact:
  assumes "2 powr of_int e \<le> \<bar>x\<bar>" and "\<bar>x\<bar> < 2 powr (of_int e + 1)"
    and "x / 2 powr (of_int e - 52) = of_int n"
  shows "round_to_double x = x"
proof -
  have "round_to_double x = of_int n * 2 powr (of_int e - 52)"
    unfolding round_to_double_binade [OF assms(1) assms(2)] assms(3) round_to_even_of_int ..
  also have "\<dots> = x / 2 powr (of_int e - 52) * 2 powr (of_int e - 52)"
    unfolding assms(3) ..
  also have "\<dots> = x" by simp
  finally show ?thesis .
qed

text \<open>What \<open>FieldRound::generate\<close> computes from the value of its child.\<close>

lemma FieldRound_generate_value:
  assumes "fst (generate s pos gen) = Inr val"
  shows "fst (generate s pos (FieldRound gen)) =
           (if 0 < val then return_int (static_cast_int (double_add val 0.5))
            else return_int (static_cast_int (double_sub val 0.5)))"
  by (simp only: generate.simps assms sum.case fst_conv if_distrib [of fst] split: if_split) simp

text \<open>
  C4. The claim is that \<open>FieldRound::generate\<close> rounds half away from zero, and the
  class comment that it rounds to the nearest integer; the code adds 0.5 to a positive
  child value, in double arithmetic, and truncates. On the largest double below one
  half these part: the nearest integer is 0, at a distance below one half, yet the
  addition rounds to 1 and \<open>generate\<close> returns 1.
\<close>

theorem FieldRound_below_half_returns_one:
  "round_to_double (1 / 2 - 1 / 2 ^ 54) = 1 / 2 - 1 / 2 ^ 54
   \<and> fst (generate [0 \<mapsto> 1 / 2 - 1 / 2 ^ 54] \<lparr>ctx_x = 0, ctx_y = 0, ctx_z = 0, ctx_t = 0\<rparr>
        (FieldRound (FieldValuePtr 0))) = Inr 1
   \<and> \<bar>0 - (1 / 2 - 1 / 2 ^ 54 :: real)\<bar> < 1 / 2
   \<and> 1 / 2 < \<bar>1 - (1 / 2 - 1 / 2 ^ 54 :: real)\<bar>"
proof -
  let ?s = "[0 \<mapsto> 1 / 2 - 1 / 2 ^ 54] :: store"
  let ?pos = "\<lparr>ctx_x = 0, ctx_y = 0, ctx_z = 0, ctx_t = 0\<rparr>"
  have child: "fst (generate ?s ?pos (FieldValuePtr 0)) = Inr (1 / 2 - 1 / 2 ^ 54)" by simp
  have positive: "(0::real) < 1 / 2 - 1 / 2 ^ 54" by simp
  have "fst (generate ?s ?pos (FieldRound (FieldValuePtr 0))) =
          return_int (static_cast_int (double_add (1 / 2 - 1 / 2 ^ 54) 0.5))"
    unfolding FieldRound_generate_value [OF child] using positive by (simp only: if_True)
  also have "\<dots> = Inr 1"
    unfolding below_half_plus_half_rounds_to_one
    by (simp add: return_int_def static_cast_int_def trunc_toward_zero_def INT_MIN_def INT_MAX_def)
  finally have res: "fst (generate ?s ?pos (FieldRound (FieldValuePtr 0))) = Inr 1" .
  have near: "\<bar>0 - (1 / 2 - 1 / 2 ^ 54 :: real)\<bar> < 1 / 2" by simp
  have far: "1 / 2 < \<bar>1 - (1 / 2 - 1 / 2 ^ 54 :: real)\<bar>" by simp
  show ?thesis using largest_below_half_is_double res near far by (intro conjI)
qed

text \<open>
  Beyond the range of \<open>int\<close> the conversion has no defined result: on the double
  \<open>3000000000\<close> the sum \<open>3000000000.5\<close> is exact and does not fit in 32 bits.
\<close>

lemma FieldRound_out_of_int_range:
  "round_to_double 3000000000 = 3000000000
   \<and> fst (generate [0 \<mapsto> 3000000000] \<lparr>ctx_x = 0, ctx_y = 0, ctx_z = 0, ctx_t = 0\<rparr>
        (FieldRound (FieldValuePtr 0))) = Inl IntCastOutOfRange"
proof -
  let ?s = "[0 \<mapsto> 3000000000] :: store"
  let ?pos = "\<lparr>ctx_x = 0, ctx_y = 0, ctx_z = 0, ctx_t = 0\<rparr>"
  have u: "(2::real) powr (of_int 31 - 52) = 1 / 2 ^ 21"
  proof -
    have "of_int 31 - 52 = (- 21 :: real)" by simp
    then show ?thesis by (simp add: powr_neg_numeral)
  qed
  have lo: "2 powr of_int 31 \<le> \<bar>x\<bar>" and hi: "\<bar>x\<bar> < 2 powr (of_int 31 + 1)"
    if "x = 3000000000 \<or> x = 3000000000 + 1 / 2" for x :: real
    using that by auto
  have d: "round_to_double 3000000000 = 3000000000"
  proof (rule round_to_double_exact [of 31 _ "3000000000 * 2 ^ 21"])
    show "2 powr of_int 31 \<le> \<bar>3000000000 :: real\<bar>" by (rule lo) simp
    show "\<bar>3000000000 :: real\<bar> < 2 powr (of_int 31 + 1)" by (rule hi) simp
    show "3000000000 / 2 powr (of_int 31 - 52) = real_of_int (3000000000 * 2 ^ 21)"
      unfolding u by simp
  qed
  have sum: "double_add 3000000000 0.5 = 3000000000 + 1 / 2"
    unfolding double_add_def
  proof -
    have eq: "3000000000 + 0.5 = (3000000000 + 1 / 2 :: real)" by simp
    show "round_to_double (3000000000 + 0.5) = 3000000000 + 1 / 2"
      unfolding eq
    proof (rule round_to_double_exact [of 31 _ "6000000001 * 2 ^ 20"])
      show "2 powr of_int 31 \<le> \<bar>3000000000 + 1 / 2 :: real\<bar>" by (rule lo) simp
      show "\<bar>3000000000 + 1 / 2 :: real\<bar> < 2 powr (of_int 31 + 1)" by (rule hi) simp
      show "(3000000000 + 1 / 2) / 2 powr (of_int 31 - 52) = real_of_int (6000000001 * 2 ^ 20)"
        unfolding u by simp
    qed
  qed
  have child: "fst (generate ?s ?pos (FieldValuePtr 0)) = Inr 3000000000" by simp
  have "fst (generate ?s ?pos (FieldRound (FieldValuePtr 0))) =
          return_int (static_cast_int (double_add 3000000000 0.5))"
    unfolding FieldRound_generate_value [OF child] by simp
  also have "\<dots> = Inl IntCastOutOfRange"
    unfolding sum
    by (simp add: return_int_def static_cast_int_def trunc_toward_zero_def INT_MIN_def INT_MAX_def)
  finally show ?thesis using d by simp
qed


text \<open>
  The instances of the claim hold on the code. The doubles nearest to 2.4 and -2.4
  are \<open>5404319552844595 / 2^51\<close> and its negative; 2.5 and -2.5 are doubles. The
  sums and differences with 0.5 are exact there, and the results are 2, 3, -3, -2.
\<close>

lemma round_to_double_binade_2_4:
  assumes "2 \<le> \<bar>x\<bar>" and "\<bar>x\<bar> < 4" and "x * 2 ^ 51 = of_int n"
  shows "round_to_double x = x"
proof -
  have u: "(2::real) powr (of_int 1 - 52) = 1 / 2 ^ 51"
  proof -
    have "of_int 1 - 52 = (- 51 :: real)" by simp
    then show ?thesis by (simp add: powr_neg_numeral)
  qed
  show ?thesis
  proof (rule round_to_double_exact [of 1 _ n])
    show "2 powr of_int 1 \<le> \<bar>x\<bar>" using assms(1) by simp
    show "\<bar>x\<bar> < 2 powr (of_int 1 + 1)" using assms(2) by simp
    show "x / 2 powr (of_int 1 - 52) = of_int n" unfolding u using assms(3) by simp
  qed
qed

lemma FieldRound_instances:
  "fst (generate [0 \<mapsto> 5404319552844595 / 2 ^ 51, 1 \<mapsto> 5 / 2, 2 \<mapsto> - (5 / 2),
                  3 \<mapsto> - (5404319552844595 / 2 ^ 51)]
      \<lparr>ctx_x = 0, ctx_y = 0, ctx_z = 0, ctx_t = 0\<rparr> (FieldRound (FieldValuePtr 0))) = Inr 2
   \<and> fst (generate [0 \<mapsto> 5404319552844595 / 2 ^ 51, 1 \<mapsto> 5 / 2, 2 \<mapsto> - (5 / 2),
                  3 \<mapsto> - (5404319552844595 / 2 ^ 51)]
      \<lparr>ctx_x = 0, ctx_y = 0, ctx_z = 0, ctx_t = 0\<rparr> (FieldRound (FieldValuePtr 1))) = Inr 3
   \<and> fst (generate [0 \<mapsto> 5404319552844595 / 2 ^ 51, 1 \<mapsto> 5 / 2, 2 \<mapsto> - (5 / 2),
                  3 \<mapsto> - (5404319552844595 / 2 ^ 51)]
      \<lparr>ctx_x = 0, ctx_y = 0, ctx_z = 0, ctx_t = 0\<rparr> (FieldRound (FieldValuePtr 2))) = Inr (- 3)
   \<and> fst (generate [0 \<mapsto> 5404319552844595 / 2 ^ 51, 1 \<mapsto> 5 / 2, 2 \<mapsto> - (5 / 2),
                  3 \<mapsto> - (5404319552844595 / 2 ^ 51)]
      \<lparr>ctx_x = 0, ctx_y = 0, ctx_z = 0, ctx_t = 0\<rparr> (FieldRound (FieldValuePtr 3))) = Inr (- 2)"
proof -
  let ?s = "[0 \<mapsto> 5404319552844595 / 2 ^ 51, 1 \<mapsto> 5 / 2, 2 \<mapsto> - (5 / 2),
             3 \<mapsto> - (5404319552844595 / 2 ^ 51)] :: store"
  let ?pos = "\<lparr>ctx_x = 0, ctx_y = 0, ctx_z = 0, ctx_t = 0\<rparr>"
  have c0: "fst (generate ?s ?pos (FieldValuePtr 0)) = Inr (5404319552844595 / 2 ^ 51)" by simp
  have c1: "fst (generate ?s ?pos (FieldValuePtr 1)) = Inr (5 / 2)" by simp
  have c2: "fst (generate ?s ?pos (FieldValuePtr 2)) = Inr (- (5 / 2))" by simp
  have c3: "fst (generate ?s ?pos (FieldValuePtr 3)) = Inr (- (5404319552844595 / 2 ^ 51))" by simp
  have s0: "double_add (5404319552844595 / 2 ^ 51) 0.5 = 6530219459687219 / 2 ^ 51"
  proof -
    have eq: "5404319552844595 / 2 ^ 51 + 0.5 = (6530219459687219 / 2 ^ 51 :: real)" by simp
    show ?thesis unfolding double_add_def eq
      by (rule round_to_double_binade_2_4 [of _ 6530219459687219]) simp_all
  qed
  have s1: "double_add (5 / 2) 0.5 = 3"
  proof -
    have eq: "5 / 2 + 0.5 = (3 :: real)" by simp
    show ?thesis unfolding double_add_def eq
      by (rule round_to_double_binade_2_4 [of _ "3 * 2 ^ 51"]) simp_all
  qed
  have s2: "double_sub (- (5 / 2)) 0.5 = - 3"
  proof -
    have eq: "- (5 / 2) - 0.5 = (- 3 :: real)" by simp
    show ?thesis unfolding double_sub_def eq
      by (rule round_to_double_binade_2_4 [of _ "- (3 * 2 ^ 51)"]) simp_all
  qed
  have s3: "double_sub (- (5404319552844595 / 2 ^ 51)) 0.5 = - (6530219459687219 / 2 ^ 51)"
  proof -
    have eq: "- (5404319552844595 / 2 ^ 51) - 0.5 = (- (6530219459687219 / 2 ^ 51) :: real)" by simp
    show ?thesis unfolding double_sub_def eq
      by (rule round_to_double_binade_2_4 [of _ "- 6530219459687219"]) simp_all
  qed
  have r0: "fst (generate ?s ?pos (FieldRound (FieldValuePtr 0))) = Inr 2"
    unfolding FieldRound_generate_value [OF c0] s0
    by (simp add: return_int_def static_cast_int_def trunc_toward_zero_def INT_MIN_def INT_MAX_def)
  have r1: "fst (generate ?s ?pos (FieldRound (FieldValuePtr 1))) = Inr 3"
    unfolding FieldRound_generate_value [OF c1] s1
    by (simp add: return_int_def static_cast_int_def trunc_toward_zero_def INT_MIN_def INT_MAX_def)
  have r2: "fst (generate ?s ?pos (FieldRound (FieldValuePtr 2))) = Inr (- 3)"
    unfolding FieldRound_generate_value [OF c2] s2
    by (simp add: return_int_def static_cast_int_def trunc_toward_zero_def INT_MIN_def INT_MAX_def)
  have r3: "fst (generate ?s ?pos (FieldRound (FieldValuePtr 3))) = Inr (- 2)"
    unfolding FieldRound_generate_value [OF c3] s3
    by (simp add: return_int_def static_cast_int_def trunc_toward_zero_def INT_MIN_def INT_MAX_def)
  show ?thesis using r0 r1 r2 r3 by (intro conjI)
qed

subsection \<open>Arity errors of clone\<close>

text \<open>
  \<open>%lu\<close> prints the count in decimal; different counts print differently, so a
  message that ends in the formatted count tells the count.
\<close>

lemma digit_char_inj:
  assumes "d < 10" and "e < 10" and "digit_char d = digit_char e"
  shows "d = e"
proof -
  have enum: "k < 10 \<Longrightarrow> k \<in> {0, 1, 2, 3, 4, 5, 6, 7, 8, 9}" for k :: nat by auto
  show ?thesis
    using enum [OF assms(1)] enum [OF assms(2)] assms(3)
    by (auto simp add: digit_char_def)
qed

lemma format_lu_nonempty: "format_lu n \<noteq> []"
  by (subst format_lu.simps) simp

lemma format_lu_inj: "format_lu m = format_lu n \<Longrightarrow> m = n"
proof (induction m arbitrary: n rule: format_lu.induct)
  case (1 m)
  show ?case
  proof (cases "m < 10")
    case small_m: True
    show ?thesis
    proof (cases "n < 10")
      case True
      have "[digit_char m] = [digit_char n]"
        using "1.prems" small_m True by (simp add: format_lu.simps [of m] format_lu.simps [of n])
      then show ?thesis using digit_char_inj [OF small_m True] by simp
    next
      case False
      have "[digit_char m] = format_lu (n div 10) @ [digit_char (n mod 10)]"
        using "1.prems" small_m False by (simp add: format_lu.simps [of m] format_lu.simps [of n])
      then show ?thesis using format_lu_nonempty [of "n div 10"] by simp
    qed
  next
    case big_m: False
    show ?thesis
    proof (cases "n < 10")
      case True
      have "format_lu (m div 10) @ [digit_char (m mod 10)] = [digit_char n]"
        using "1.prems" big_m True by (simp add: format_lu.simps [of m] format_lu.simps [of n])
      then show ?thesis using format_lu_nonempty [of "m div 10"] by simp
    next
      case False
      have eq: "format_lu (m div 10) @ [digit_char (m mod 10)]
              = format_lu (n div 10) @ [digit_char (n mod 10)]"
        using "1.prems" big_m False by (simp add: format_lu.simps [of m] format_lu.simps [of n])
      then have "format_lu (m div 10) = format_lu (n div 10)"
        and last: "digit_char (m mod 10) = digit_char (n mod 10)" by simp_all
      then have d: "m div 10 = n div 10" using "1.IH" [OF big_m] by simp
      have "m mod 10 = n mod 10" using last by (intro digit_char_inj) simp_all
      then show ?thesis using d by (metis div_mult_mod_eq)
    qed
  qed
qed

lemma format_lu_examples:
  "format_lu 0 = ''0''" "format_lu 2 = ''2''" "format_lu 3 = ''3''" "format_lu 12 = ''12''"
  by (simp_all add: format_lu.simps digit_char_def)

text \<open>
  C3 (as amended). \<open>clone\<close> with an argument list of the wrong size throws a
  \<open>ParseException\<close>, and with a list of the right size it builds the node. The
  message of the two templates gives the expected count (1 or 2) and the actual
  count, under the generic word \<open>function\<close>; the message of \<open>FieldATan\<close> names
  \<open>atan\<close> and gives the expected counts (1 or 2) and the actual count; the message of
  \<open>FieldRound\<close> is a fixed text that names \<open>round\<close> and the expected count \<open>one\<close>.
\<close>

theorem clone_arity_errors:
  "(length args \<noteq> 1 \<longrightarrow> FieldGenOneArg_clone Op1 args = Inl (ParseException
       (''Incorrect number of arguments to function. Expecting 1, got '' @ format_lu (length args))))
   \<and> (length args = 1 \<longrightarrow> FieldGenOneArg_clone Op1 args = Inr (FieldGenOneArg Op1 (hd args)))
   \<and> (length args \<noteq> 2 \<longrightarrow> FieldGenTwoArg_clone Op2 args = Inl (ParseException
       (''Incorrect number of arguments to function. Expecting 2, got '' @ format_lu (length args))))
   \<and> (length args = 2 \<longrightarrow> FieldGenTwoArg_clone Op2 args = Inr (FieldGenTwoArg Op2 (hd args) (last args)))
   \<and> (length args \<noteq> 1 \<and> length args \<noteq> 2 \<longrightarrow> FieldATan_clone args = Inl (ParseException
       (''Incorrect number of arguments to atan function. Expecting 1 or 2, got ''
          @ format_lu (length args))))
   \<and> (length args \<noteq> 1 \<longrightarrow>
         FieldRound_clone args = Inl (ParseException ''round function must have one input''))
   \<and> (length args = 1 \<longrightarrow> FieldRound_clone args = Inr (FieldRound (hd args)))
   \<and> (\<forall>m n. format_lu m = format_lu n \<longrightarrow> m = n)"
  using format_lu_inj
  by (auto simp add: FieldGenOneArg_clone_def FieldGenTwoArg_clone_def FieldATan_clone_def
      FieldRound_clone_def)

theorem clone_arity_errors_witness:
  "FieldGenOneArg_clone exp [] = Inl (ParseException
       ''Incorrect number of arguments to function. Expecting 1, got 0'')
   \<and> FieldGenTwoArg_clone (powr) [] = Inl (ParseException
       ''Incorrect number of arguments to function. Expecting 2, got 0'')
   \<and> FieldATan_clone [] = Inl (ParseException
       ''Incorrect number of arguments to atan function. Expecting 1 or 2, got 0'')
   \<and> FieldRound_clone [] = Inl (ParseException ''round function must have one input'')"
  using clone_arity_errors [of "[]" exp "(powr)"]
  by (simp add: format_lu_examples)

text \<open>
  C3 as stated says that every such message states the function name, the expected
  and the actual count. The message of \<open>FieldRound::clone\<close> on the empty list does not
  contain the actual count 0 and is the same for two arguments; the message of
  \<open>FieldGenOneArg::clone\<close> is the same whatever function the template wraps.
\<close>

lemma sublist_single: "sublist [c] ys \<longleftrightarrow> c \<in> set ys"
  by (auto simp add: sublist_def in_set_conv_decomp)

theorem FieldRound_clone_message_counterexample:
  "FieldRound_clone [] = Inl (ParseException ''round function must have one input'')
   \<and> \<not> sublist (format_lu (length ([] :: FieldGenerator list))) ''round function must have one input''
   \<and> FieldRound_clone [FieldValuePtr 0, FieldValuePtr 1] = FieldRound_clone []
   \<and> FieldGenOneArg_clone exp [] = FieldGenOneArg_clone ln []"
  by (simp add: FieldRound_clone_def FieldGenOneArg_clone_def format_lu_examples sublist_single)

subsection \<open>Textual forms\<close>

text \<open>
  C6 (as amended). The header overrides \<open>str\<close> in five classes. \<open>FieldSin\<close>,
  \<open>FieldCos\<close> and \<open>FieldHeaviside\<close> return their own function name (\<open>sin\<close>, \<open>cos\<close>,
  \<open>H\<close>) applied to the child's text. \<open>FieldGenOneArg\<close> returns the placeholder
  \<open>func\<close> applied to the child's text, the same for every function it wraps.
\<close>

theorem str_function_names:
  "FieldSin_str gen_str = ''sin('' @ gen_str @ '')''
   \<and> FieldCos_str gen_str = ''cos('' @ gen_str @ '')''
   \<and> FieldHeaviside_str gen_str = ''H('' @ gen_str @ '')''
   \<and> FieldGenOneArg_str Op gen_str = ''func('' @ gen_str @ '')''
   \<and> FieldGenOneArg_str Op gen_str = FieldGenOneArg_str Op' gen_str
   \<and> FieldSin_str (FieldGenOneArg_str Op (FieldHeaviside_str (FieldCos_str ''x''))) = ''sin(func(H(cos(x))))''"
  by (simp add: FieldSin_str_def FieldCos_str_def FieldHeaviside_str_def FieldGenOneArg_str_def)

text \<open>
  \<open>FieldGenTwoArg::str\<close> returns, for every wrapped function, what \<open>FieldCos::str\<close>
  returns on the two children's texts joined by a comma.
\<close>

lemma FieldGenTwoArg_str_cos:
  "FieldGenTwoArg_str Op A_str B_str = FieldCos_str (A_str @ '','' @ B_str)"
  by (simp add: FieldGenTwoArg_str_def FieldCos_str_def)

text \<open>
  C6 as stated says that every node renders under its own function's name, a node of
  the two-argument template under the name of the function it wraps. A one-argument
  node wrapping \<open>exp\<close> renders as \<open>func(x)\<close>, as one wrapping \<open>ln\<close> does, and a
  two-argument node wrapping the power function renders as \<open>cos(x,y)\<close>.
\<close>

theorem str_wrapped_name_counterexample:
  "FieldGenOneArg_str exp ''x'' = ''func(x)''
   \<and> FieldGenOneArg_str exp ''x'' = FieldGenOneArg_str ln ''x''
   \<and> FieldGenTwoArg_str (powr) ''x'' ''y'' = ''cos(x,y)''"
  by (simp add: FieldGenOneArg_str_def FieldGenTwoArg_str_def)

subsection \<open>The arctangent node\<close>

text \<open>
  Numerical bounds: the partial sums of the alternating arctangent series enclose
  the arctangent, and Machin's formula turns the enclosures at 1/5 and 1/239 into
  one of \<open>pi\<close>.
\<close>

lemma arctan_series_bounds:
  fixes x :: real
  assumes "0 < x" and "x \<le> 1"
  shows "(\<Sum>i<2 * n. (- 1) ^ i * (1 / real (i * 2 + 1) * x ^ (i * 2 + 1))) \<le> arctan x
       \<and> arctan x \<le> (\<Sum>i<2 * n + 1. (- 1) ^ i * (1 / real (i * 2 + 1) * x ^ (i * 2 + 1)))"
proof -
  have ax: "\<bar>x\<bar> \<le> 1" using assms by simp
  have first: "0 < 1 / real (0 * 2 + 1) * x ^ (0 * 2 + 1)" using assms by simp
  have "(\<Sum>k. (- 1) ^ k * (1 / real (k * 2 + 1) * x ^ (k * 2 + 1)))
      \<in> {\<Sum>i<2 * n. (- 1) ^ i * (1 / real (i * 2 + 1) * x ^ (i * 2 + 1)) ..
         \<Sum>i<2 * n + 1. (- 1) ^ i * (1 / real (i * 2 + 1) * x ^ (i * 2 + 1))}"
    using summable_Leibniz(2) [OF zeroseq_arctan_series [OF ax] monoseq_arctan_series [OF ax]] first
    by blast
  then show ?thesis unfolding arctan_series [OF ax] by simp
qed

lemma arctan_fifth_bounds:
  "(1 / 5 - 1 / 375 + 1 / 15625 - 1 / 546875 :: real) \<le> arctan (1 / 5)
   \<and> arctan (1 / 5) \<le> (1 / 5 - 1 / 375 + 1 / 15625 - 1 / 546875 + 1 / 17578125 :: real)"
proof -
  have lo: "(\<Sum>i<2 * 2. (- 1) ^ i * (1 / real (i * 2 + 1) * (1 / 5 :: real) ^ (i * 2 + 1)))
          = 1 / 5 - 1 / 375 + 1 / 15625 - 1 / 546875"
    by (simp add: numeral_eq_Suc)
  have hi: "(\<Sum>i<2 * 2 + 1. (- 1) ^ i * (1 / real (i * 2 + 1) * (1 / 5 :: real) ^ (i * 2 + 1)))
          = 1 / 5 - 1 / 375 + 1 / 15625 - 1 / 546875 + 1 / 17578125"
    by (simp add: numeral_eq_Suc)
  show ?thesis using arctan_series_bounds [of "1 / 5" 2] unfolding lo hi by simp
qed


lemma arctan_239_bounds:
  "(1 / 239 - 1 / 40955757 :: real) \<le> arctan (1 / 239) \<and> arctan (1 / 239) \<le> (1 / 239 :: real)"
proof -
  have lo: "(\<Sum>i<2 * 1. (- 1) ^ i * (1 / real (i * 2 + 1) * (1 / 239 :: real) ^ (i * 2 + 1)))
          = 1 / 239 - 1 / 40955757"
    by (simp add: numeral_eq_Suc)
  have hi: "(\<Sum>i<2 * 0 + 1. (- 1) ^ i * (1 / real (i * 2 + 1) * (1 / 239 :: real) ^ (i * 2 + 1)))
          = 1 / 239"
    by simp
  have a: "(1 / 239 - 1 / 40955757 :: real) \<le> arctan (1 / 239)"
    using arctan_series_bounds [of "1 / 239" 1] unfolding lo by simp
  have b: "arctan (1 / 239) \<le> (1 / 239 :: real)"
    using arctan_series_bounds [of "1 / 239" 0] unfolding hi by simp
  show ?thesis using a b by simp
qed

lemma pi_bounds: "3.1415916 < pi \<and> pi < 3.1415927"
proof -
  have m: "pi = 16 * arctan (1 / 5) - 4 * arctan (1 / 239)"
    using machin by simp
  show ?thesis
    unfolding m using arctan_fifth_bounds arctan_239_bounds by simp
qed

text \<open>
  \<open>atan2 y x\<close> is the angle of the point \<open>(x, y)\<close>: away from the origin it lies in
  \<open>(-pi, pi]\<close> and gives the point back in polar form.
\<close>

lemma sqrt_sum_squares_factor:
  fixes x y :: real
  assumes "x \<noteq> 0"
  shows "sqrt (x\<^sup>2 + y\<^sup>2) = \<bar>x\<bar> * sqrt (1 + (y / x)\<^sup>2)"
proof -
  have "x\<^sup>2 + y\<^sup>2 = x\<^sup>2 * (1 + (y / x)\<^sup>2)"
    using assms by (simp add: field_simps power2_eq_square)
  then show ?thesis by (simp add: real_sqrt_mult)
qed

lemma polar_arctan:
  fixes x y :: real
  assumes "x \<noteq> 0"
  shows "\<bar>x\<bar> * sqrt (1 + (y / x)\<^sup>2) * cos (arctan (y / x)) = \<bar>x\<bar>"
    and "\<bar>x\<bar> * sqrt (1 + (y / x)\<^sup>2) * sin (arctan (y / x)) = \<bar>x\<bar> * (y / x)"
proof -
  have pos: "0 < sqrt (1 + (y / x)\<^sup>2)"
    by (simp add: add_pos_nonneg)
  then show "\<bar>x\<bar> * sqrt (1 + (y / x)\<^sup>2) * cos (arctan (y / x)) = \<bar>x\<bar>"
    by (simp add: cos_arctan)
  from pos show "\<bar>x\<bar> * sqrt (1 + (y / x)\<^sup>2) * sin (arctan (y / x)) = \<bar>x\<bar> * (y / x)"
    by (simp add: sin_arctan)
qed

lemma atan2_polar:
  assumes "x \<noteq> 0 \<or> y \<noteq> 0"
  shows "- pi < atan2 y x \<and> atan2 y x \<le> pi
       \<and> sqrt (x\<^sup>2 + y\<^sup>2) * cos (atan2 y x) = x
       \<and> sqrt (x\<^sup>2 + y\<^sup>2) * sin (atan2 y x) = y"
proof -
  consider (right) "0 < x" | (upper_left) "x < 0" "0 \<le> y" | (lower_left) "x < 0" "y < 0"
    | (up) "x = 0" "0 < y" | (down) "x = 0" "y < 0"
    using assms by fastforce
  then show ?thesis
  proof cases
    case right
    then have nz: "x \<noteq> 0" by simp
    have a: "atan2 y x = arctan (y / x)" using right by (simp add: atan2_def)
    have "- pi < arctan (y / x)" "arctan (y / x) \<le> pi"
      using arctan_lbound [of "y / x"] arctan_ubound [of "y / x"] pi_gt_zero by linarith+
    moreover have "sqrt (x\<^sup>2 + y\<^sup>2) * cos (arctan (y / x)) = x"
      using polar_arctan(1) [OF nz, of y] right by (simp add: sqrt_sum_squares_factor [OF nz])
    moreover have "sqrt (x\<^sup>2 + y\<^sup>2) * sin (arctan (y / x)) = y"
      using polar_arctan(2) [OF nz, of y] right by (simp add: sqrt_sum_squares_factor [OF nz])
    ultimately show ?thesis unfolding a by simp
  next
    case upper_left
    then have nz: "x \<noteq> 0" by simp
    have a: "atan2 y x = arctan (y / x) + pi" using upper_left by (simp add: atan2_def)
    have "y / x \<le> 0" using upper_left by (simp add: divide_nonneg_neg)
    then have "arctan (y / x) \<le> 0" by (simp add: arctan_le_zero_iff)
    then have "- pi < arctan (y / x) + pi" "arctan (y / x) + pi \<le> pi"
      using arctan_lbound [of "y / x"] pi_gt_zero by linarith+
    moreover have "sqrt (x\<^sup>2 + y\<^sup>2) * cos (arctan (y / x) + pi) = x"
      using polar_arctan(1) [OF nz, of y] upper_left
      by (simp add: sqrt_sum_squares_factor [OF nz])
    moreover have "sqrt (x\<^sup>2 + y\<^sup>2) * sin (arctan (y / x) + pi) = y"
      using polar_arctan(2) [OF nz, of y] upper_left
      by (simp add: sqrt_sum_squares_factor [OF nz])
    ultimately show ?thesis unfolding a by simp
  next
    case lower_left
    then have nz: "x \<noteq> 0" by simp
    have a: "atan2 y x = arctan (y / x) - pi" using lower_left by (simp add: atan2_def)
    have "0 < y / x" using lower_left by (simp add: divide_neg_neg)
    then have "0 < arctan (y / x)" by (simp add: zero_less_arctan_iff)
    then have "- pi < arctan (y / x) - pi" "arctan (y / x) - pi \<le> pi"
      using arctan_ubound [of "y / x"] pi_gt_zero by linarith+
    moreover have "sqrt (x\<^sup>2 + y\<^sup>2) * cos (arctan (y / x) - pi) = x"
      using polar_arctan(1) [OF nz, of y] lower_left
      by (simp add: sqrt_sum_squares_factor [OF nz] cos_diff)
    moreover have "sqrt (x\<^sup>2 + y\<^sup>2) * sin (arctan (y / x) - pi) = y"
      using polar_arctan(2) [OF nz, of y] lower_left
      by (simp add: sqrt_sum_squares_factor [OF nz] sin_diff)
    ultimately show ?thesis unfolding a by simp
  next
    case up
    then have a: "atan2 y x = pi / 2" by (simp add: atan2_def)
    show ?thesis unfolding a using up pi_gt_zero by simp
  next
    case down
    then have a: "atan2 y x = - (pi / 2)" by (simp add: atan2_def)
    have "- pi < - (pi / 2)" and "- (pi / 2) \<le> pi" using pi_gt_zero by linarith+
    moreover have "sqrt (x\<^sup>2 + y\<^sup>2) * cos (- (pi / 2)) = x" using down by simp
    moreover have "sqrt (x\<^sup>2 + y\<^sup>2) * sin (- (pi / 2)) = y" using down by simp
    ultimately show ?thesis unfolding a by (intro conjI)
  qed
qed


lemma FieldATan_generate_value:
  assumes "fst (generate s pos a) = Inr va"
  shows "fst (generate s pos (FieldATan a None)) = Inr (atan va)"
    and "fst (generate s pos b) = Inr vb \<Longrightarrow>
         fst (generate s pos (FieldATan a (Some b))) = Inr (atan2 va vb)"
proof -
  show "fst (generate s pos (FieldATan a None)) = Inr (atan va)"
    by (simp only: generate.simps option.case assms sum.case fst_conv)
  assume "fst (generate s pos b) = Inr vb"
  then show "fst (generate s pos (FieldATan a (Some b))) = Inr (atan2 va vb)"
    by (simp only: generate.simps option.case assms sum.case fst_conv)
qed

lemma atan_values:
  "\<bar>atan 1 - 0.785398\<bar> < 5 / 10 ^ 7"
  "\<bar>atan2 1 1 - 0.785398\<bar> < 5 / 10 ^ 7"
  "\<bar>atan2 1 (- 1) - 2.35619\<bar> < 5 / 10 ^ 6"
proof -
  have quarter: "arctan 1 = pi / 4" by (rule arctan_one)
  have "atan 1 = pi / 4" by (simp add: atan_def quarter)
  then show "\<bar>atan 1 - 0.785398\<bar> < 5 / 10 ^ 7" using pi_bounds by (simp add: abs_if)
  have "atan2 1 1 = pi / 4" by (simp add: atan2_def quarter)
  then show "\<bar>atan2 1 1 - 0.785398\<bar> < 5 / 10 ^ 7" using pi_bounds by (simp add: abs_if)
  have "atan2 1 (- 1) = 3 * pi / 4" by (simp add: atan2_def arctan_minus quarter)
  then show "\<bar>atan2 1 (- 1) - 2.35619\<bar> < 5 / 10 ^ 6" using pi_bounds by (simp add: abs_if)
qed

text \<open>
  C5. \<open>FieldATan::clone\<close> of a one-element list returns a node whose \<open>generate\<close>
  applies the one-argument arctangent to the child's value; of a two-element list, a
  node whose \<open>generate\<close> applies \<open>atan2\<close> with the first child's value as first
  argument \<open>y\<close> and the second child's value as second argument \<open>x\<close>; of a list of any
  other size (of three elements, for one) it throws a \<open>ParseException\<close>. In
  particular \<open>atan(1)\<close> and \<open>atan(1,1)\<close> are 0.785398 and \<open>atan(1,-1)\<close> is 2.35619, to
  the digits shown.
\<close>

theorem FieldATan_one_or_two_arguments:
  assumes "fst (generate s pos a) = Inr va" and "fst (generate s pos b) = Inr vb"
  shows "FieldATan_clone [a] = Inr (FieldATan a None)
       \<and> fst (generate s pos (FieldATan a None)) = Inr (atan va)
       \<and> - (pi / 2) < atan va \<and> atan va < pi / 2 \<and> tan (atan va) = va
       \<and> FieldATan_clone [a, b] = Inr (FieldATan a (Some b))
       \<and> fst (generate s pos (FieldATan a (Some b))) = Inr (atan2 va vb)
       \<and> (vb \<noteq> 0 \<or> va \<noteq> 0 \<longrightarrow>
            - pi < atan2 va vb \<and> atan2 va vb \<le> pi
            \<and> sqrt (vb\<^sup>2 + va\<^sup>2) * cos (atan2 va vb) = vb
            \<and> sqrt (vb\<^sup>2 + va\<^sup>2) * sin (atan2 va vb) = va)
       \<and> (\<forall>args. length args \<noteq> 1 \<and> length args \<noteq> 2 \<longrightarrow>
            FieldATan_clone args = Inl (ParseException
              (''Incorrect number of arguments to atan function. Expecting 1 or 2, got ''
                 @ format_lu (length args))))
       \<and> FieldATan_clone [a, b, c] = Inl (ParseException
            ''Incorrect number of arguments to atan function. Expecting 1 or 2, got 3'')
       \<and> (va = 1 \<longrightarrow> \<bar>atan va - 0.785398\<bar> < 5 / 10 ^ 7)
       \<and> (va = 1 \<and> vb = 1 \<longrightarrow> \<bar>atan2 va vb - 0.785398\<bar> < 5 / 10 ^ 7)
       \<and> (va = 1 \<and> vb = - 1 \<longrightarrow> \<bar>atan2 va vb - 2.35619\<bar> < 5 / 10 ^ 6)"
proof -
  have c1: "FieldATan_clone [a] = Inr (FieldATan a None)"
    by (simp add: FieldATan_clone_def)
  have c2: "FieldATan_clone [a, b] = Inr (FieldATan a (Some b))"
    by (simp add: FieldATan_clone_def)
  have c3: "FieldATan_clone [a, b, c] = Inl (ParseException
            ''Incorrect number of arguments to atan function. Expecting 1 or 2, got 3'')"
  proof -
    have "length [a, b, c] = 3" by simp
    then show ?thesis
      unfolding FieldATan_clone_def by (simp only: format_lu_examples) simp
  qed
  have cn: "\<forall>args. length args \<noteq> 1 \<and> length args \<noteq> 2 \<longrightarrow>
            FieldATan_clone args = Inl (ParseException
              (''Incorrect number of arguments to atan function. Expecting 1 or 2, got ''
                 @ format_lu (length args)))"
    by (simp add: FieldATan_clone_def)
  have range: "- (pi / 2) < atan va \<and> atan va < pi / 2 \<and> tan (atan va) = va"
    unfolding atan_def by (rule arctan)
  have polar: "vb \<noteq> 0 \<or> va \<noteq> 0 \<longrightarrow>
            - pi < atan2 va vb \<and> atan2 va vb \<le> pi
            \<and> sqrt (vb\<^sup>2 + va\<^sup>2) * cos (atan2 va vb) = vb
            \<and> sqrt (vb\<^sup>2 + va\<^sup>2) * sin (atan2 va vb) = va"
    using atan2_polar [of vb va] by blast
  have n1: "va = 1 \<longrightarrow> \<bar>atan va - 0.785398\<bar> < 5 / 10 ^ 7"
    using atan_values(1) by blast
  have n2: "va = 1 \<and> vb = 1 \<longrightarrow> \<bar>atan2 va vb - 0.785398\<bar> < 5 / 10 ^ 7"
    using atan_values(2) by blast
  have n3: "va = 1 \<and> vb = - 1 \<longrightarrow> \<bar>atan2 va vb - 2.35619\<bar> < 5 / 10 ^ 6"
    using atan_values(3) by blast
  show ?thesis
    using c1 FieldATan_generate_value(1) [OF assms(1)] range c2
      FieldATan_generate_value(2) [OF assms(1) assms(2)] polar cn c3 n1 n2 n3
    by blast
qed

theorem FieldATan_one_or_two_arguments_witness:
  "fst (generate [0 \<mapsto> 1, 1 \<mapsto> - 1] \<lparr>ctx_x = 0, ctx_y = 0, ctx_z = 0, ctx_t = 0\<rparr> (FieldValuePtr 0)) = Inr 1
   \<and> fst (generate [0 \<mapsto> 1, 1 \<mapsto> - 1] \<lparr>ctx_x = 0, ctx_y = 0, ctx_z = 0, ctx_t = 0\<rparr> (FieldValuePtr 1)) = Inr (- 1)
   \<and> fst (generate [0 \<mapsto> 1, 1 \<mapsto> - 1] \<lparr>ctx_x = 0, ctx_y = 0, ctx_z = 0, ctx_t = 0\<rparr>
        (FieldATan (FieldValuePtr 0) None)) = Inr (atan 1)
   \<and> \<bar>atan 1 - 0.785398\<bar> < 5 / 10 ^ 7
   \<and> fst (generate [0 \<mapsto> 1, 1 \<mapsto> - 1] \<lparr>ctx_x = 0, ctx_y = 0, ctx_z = 0, ctx_t = 0\<rparr>
        (FieldATan (FieldValuePtr 0) (Some (FieldValuePtr 0)))) = Inr (atan2 1 1)
   \<and> \<bar>atan2 1 1 - 0.785398\<bar> < 5 / 10 ^ 7
   \<and> fst (generate [0 \<mapsto> 1, 1 \<mapsto> - 1] \<lparr>ctx_x = 0, ctx_y = 0, ctx_z = 0, ctx_t = 0\<rparr>
        (FieldATan (FieldValuePtr 0) (Some (FieldValuePtr 1)))) = Inr (atan2 1 (- 1))
   \<and> \<bar>atan2 1 (- 1) - 2.35619\<bar> < 5 / 10 ^ 6
   \<and> FieldATan_clone [FieldValuePtr 0, FieldValuePtr 1, FieldValuePtr 0] = Inl (ParseException
        ''Incorrect number of arguments to atan function. Expecting 1 or 2, got 3'')"
proof -
  let ?s = "[0 \<mapsto> 1, 1 \<mapsto> - 1] :: store"
  let ?pos = "\<lparr>ctx_x = 0, ctx_y = 0, ctx_z = 0, ctx_t = 0\<rparr>"
  have a: "fst (generate ?s ?pos (FieldValuePtr 0)) = Inr 1" by simp
  have b: "fst (generate ?s ?pos (FieldValuePtr 1)) = Inr (- 1)" by simp
  note same = FieldATan_one_or_two_arguments [OF a a, of "FieldValuePtr 0"]
  note opp = FieldATan_one_or_two_arguments [OF a b, of "FieldValuePtr 0"]
  show ?thesis
    using a b same opp by blast
qed

end
